theory Spec2Isabelle
  imports
    Main
    "HOL-Library.Word"
    "HOL-Library.Signed_Division"
    "HOL-Library.Sublist"
begin

section \<open>The C library: formatted output and \<open>atoi\<close>\<close>

text \<open>
  \<open>glyph_image.c\<close> prints with the \<open>printf\<close> conversions \<open>%d\<close>, \<open>%ld\<close>, \<open>%s\<close> and
  \<open>%02x\<close> and reads its numeric arguments with \<open>atoi\<close>.

  The C values of type \<open>int\<close>, \<open>long\<close> and \<open>unsigned int\<close> are modelled as \<open>int\<close> and
  \<open>nat\<close>, with every conversion to a narrower type written out: \<open>signed_take_bit 31\<close> is
  the conversion of a \<open>long\<close> to \<open>int\<close>, at \<open>(int)slot->advance.x\<close>, at the two
  stores of \<open>face->num_glyphs - 1\<close> into an \<open>int\<close> index, and in \<open>atoi\<close>. C's rounding
  is written out too: \<open>drop_bit\<close> is the arithmetic shift \<open>>>\<close> and \<open>smod\<close> is \<open>%\<close>,
  whose result has the sign of the dividend. The remaining arithmetic, \<open>last - first +
  1\<close>, \<open>++\<close> and \<open>width - 1\<close>, has no defined result in C when it leaves the \<open>int\<close>
  range and is the arithmetic of \<open>int\<close> inside it; \<open>width - 1\<close> of an empty row is \<open>-1\<close>.
  Coverage bytes (\<open>unsigned char\<close>) are \<open>8 word\<close>.
\<close>

definition hex_digit :: "nat \<Rightarrow> char" where
  "hex_digit d = ''0123456789abcdef'' ! d"

fun dec_nat :: "nat \<Rightarrow> string" where
  "dec_nat n = (if n < 10 then [hex_digit n] else dec_nat (n div 10) @ [hex_digit (n mod 10)])"

declare dec_nat.simps [simp del]

definition fmt_d :: "int \<Rightarrow> string" where
  \<comment> \<open>\<open>%d\<close> and \<open>%ld\<close>\<close>
  "fmt_d i = (if i < 0 then CHR ''-'' # dec_nat (nat (- i)) else dec_nat (nat i))"

definition fmt_02x :: "8 word \<Rightarrow> string" where
  \<comment> \<open>\<open>%02x\<close> of an \<open>unsigned char\<close> value\<close>
  "fmt_02x v = [hex_digit (unat v div 16), hex_digit (unat v mod 16)]"

definition isspace :: "char \<Rightarrow> bool" where
  "isspace c = (c \<in> set [CHR 0x20, CHR 0x09, CHR 0x0A, CHR 0x0B, CHR 0x0C, CHR 0x0D])"

definition isdigit :: "char \<Rightarrow> bool" where
  "isdigit c = (48 \<le> (of_char c :: nat) \<and> (of_char c :: nat) \<le> 57)"

fun atoi_digits :: "int \<Rightarrow> string \<Rightarrow> int" where
  "atoi_digits acc [] = acc"
| "atoi_digits acc (c # cs) =
     (if isdigit c then atoi_digits (acc * 10 + (int (of_char c) - 48)) cs else acc)"

definition strtol :: "string \<Rightarrow> int" where
  \<comment> \<open>base 10, no end pointer; the result is a \<open>long\<close>, \<open>LONG_MIN\<close> or \<open>LONG_MAX\<close> beyond it\<close>
  "strtol str =
     max (- (2 ^ 63)) (min (2 ^ 63 - 1)
       (case dropWhile isspace str of
          [] \<Rightarrow> 0
        | c # cs \<Rightarrow>
            if c = CHR ''-'' then - atoi_digits 0 cs
            else if c = CHR ''+'' then atoi_digits 0 cs
            else atoi_digits 0 (c # cs)))"

definition atoi :: "string \<Rightarrow> int" where
  \<comment> \<open>\<open>(int) strtol (str, NULL, 10)\<close>: the result is an \<open>int\<close>\<close>
  "atoi str = signed_take_bit 31 (strtol str)"

section \<open>The rasterizer's data and the program's effects\<close>

record FT_Bitmap =
  rows :: nat
  width :: nat
  pitch :: int
  buffer :: "int \<Rightarrow> 8 word"
    \<comment> \<open>the byte at each offset from the \<open>buffer\<close> pointer\<close>

record FT_GlyphSlot =
  advance_x :: int
  bitmap_left :: int
  bitmap_top :: int
  bitmap :: FT_Bitmap

record FT_Face =
  family_name :: string
  style_name :: string
  units_per_EM :: int
  ascender :: int
  descender :: int
  num_glyphs :: int

text \<open>
  FreeType and the clock are outside the program. A \<open>world\<close> fixes what they answer:
  the error code of each FreeType call (0 is success), the face that \<open>FT_New_Face\<close>
  opens, the glyph slot after glyph \<open>i\<close> has been loaded and rendered, and the text
  \<open>strftime\<close> writes for the current time.
\<close>

record world =
  init_error :: int
  new_face_error :: int
  face :: FT_Face
  set_pixel_sizes_error :: "int \<Rightarrow> int"
  load_glyph_error :: "int \<Rightarrow> int"
  render_glyph_error :: "int \<Rightarrow> int"
  glyph :: "int \<Rightarrow> FT_GlyphSlot"
  local_time :: string

datatype ft_call =
  Init_FreeType
| New_Face string
| Set_Pixel_Sizes int
| Load_Glyph int
| Render_Glyph int

record io =
  stdout :: string
  stderr :: string
  ft_calls :: "ft_call list"

definition printf :: "string \<Rightarrow> io \<Rightarrow> io" where
  "printf t s = s\<lparr>stdout := stdout s @ t\<rparr>"

definition eprintf :: "string \<Rightarrow> io \<Rightarrow> io" where
  "eprintf t s = s\<lparr>stderr := stderr s @ t\<rparr>"

definition ft :: "ft_call \<Rightarrow> io \<Rightarrow> io" where
  "ft c s = s\<lparr>ft_calls := ft_calls s @ [c]\<rparr>"

section \<open>\<open>render\<close>\<close>

subsection \<open>Glyph range (lines 57 to 67)\<close>

definition resolve_range :: "int \<Rightarrow> int \<Rightarrow> int \<Rightarrow> int \<times> int" where
  "resolve_range first_glyph_index last_glyph_index n =
     (let first_index = (if first_glyph_index < 0 then 0
                         else if first_glyph_index \<ge> n then signed_take_bit 31 (n - 1)
                         else first_glyph_index);
          last_index = (if last_glyph_index = - 1 \<or> last_glyph_index \<ge> n
                        then signed_take_bit 31 (n - 1)
                        else if last_glyph_index < first_index then first_index
                        else last_glyph_index)
      in (first_index, last_index))"

subsection \<open>Header block (lines 69 to 83)\<close>

definition print_header :: "world \<Rightarrow> string \<Rightarrow> int \<Rightarrow> int \<Rightarrow> int \<Rightarrow> io \<Rightarrow> io" where
  "print_header w face_name pixel_size first_glyph_index last_glyph_index s =
     fold printf
       [''# generated on '' @ local_time w @ ''\<newline>'',
        ''> file: '' @ face_name @ ''\<newline>'',
        ''> name: '' @ family_name (face w) @ ''-'' @ style_name (face w) @ ''\<newline>'',
        ''> upem: '' @ fmt_d (units_per_EM (face w)) @ ''\<newline>'',
        ''> ascent: '' @ fmt_d (ascender (face w)) @ ''\<newline>'',
        ''> descent: '' @ fmt_d (- descender (face w)) @ ''\<newline>'',
        ''> size: '' @ fmt_d pixel_size @ ''\<newline>'',
        ''> font_glyphs: '' @ fmt_d (num_glyphs (face w)) @ ''\<newline>'',
        ''# first: '' @ fmt_d first_glyph_index @ ''\<newline>'',
        ''# last: '' @ fmt_d last_glyph_index @ ''\<newline>'',
        ''> num_glyphs: '' @ fmt_d (last_glyph_index - first_glyph_index + 1) @ ''\<newline>'']
       s"

subsection \<open>Advance width (lines 102 to 109)\<close>

definition advance_text :: "int \<Rightarrow> string" where
  "advance_text adv =
     (let adv_int = drop_bit 6 adv;
          adv_frac = adv smod 0x3f
      in if adv_frac \<noteq> 0 then fmt_d adv_int @ '','' @ fmt_d adv_frac
         else fmt_d adv_int)"

subsection \<open>Coverage rows (lines 113 to 129)\<close>

function scan_max :: "(int \<Rightarrow> 8 word) \<Rightarrow> int \<Rightarrow> int \<Rightarrow> int" where
  "scan_max buf p max_cc =
     (if max_cc \<ge> 0 \<and> buf (p + max_cc) = 0 then scan_max buf p (max_cc - 1) else max_cc)"
  by pat_completeness auto
termination
  by (relation "measure (\<lambda>(buf, p, max_cc). nat (max_cc + 1))") auto

declare scan_max.simps [simp del]

definition print_pixel :: "8 word \<Rightarrow> string" where
  "print_pixel v = (if v \<noteq> 0 then fmt_02x v else ''  '')"

function print_cols :: "(int \<Rightarrow> 8 word) \<Rightarrow> int \<Rightarrow> int \<Rightarrow> int \<Rightarrow> io \<Rightarrow> io" where
  "print_cols buf p max_cc cc s =
     (if cc < max_cc then print_cols buf p max_cc (cc + 1) (printf (print_pixel (buf (p + cc))) s)
      else s)"
  by pat_completeness auto
termination
  by (relation "measure (\<lambda>(buf, p, max_cc, cc, s). nat (max_cc - cc))") auto

declare print_cols.simps [simp del]

definition print_row :: "FT_Bitmap \<Rightarrow> int \<Rightarrow> io \<Rightarrow> io" where
  "print_row bm p s =
     (let s1 = printf '':'' s;
          max_cc = scan_max (buffer bm) p (int (width bm) - 1);
          s2 = print_cols (buffer bm) p max_cc 0 s1
      in printf ''\<newline>'' s2)"

function print_rows :: "FT_Bitmap \<Rightarrow> nat \<Rightarrow> int \<Rightarrow> io \<Rightarrow> io" where
  "print_rows bm rc p s =
     (if rc < rows bm then print_rows bm (rc + 1) (p + pitch bm) (print_row bm p s) else s)"
  by pat_completeness auto
termination
  by (relation "measure (\<lambda>(bm, rc, p, s). rows bm - rc)") auto

declare print_rows.simps [simp del]

subsection \<open>Glyph records (lines 87 to 130)\<close>

definition print_glyph :: "FT_GlyphSlot \<Rightarrow> int \<Rightarrow> io \<Rightarrow> io" where
  "print_glyph slot glyph_index s =
     (let bm = bitmap slot;
          adv = signed_take_bit 31 (advance_x slot);
          s1 = printf (''> glyph: '' @ fmt_d glyph_index @ '';'' @ advance_text adv @ '';''
                 @ fmt_d (bitmap_left slot) @ '' '' @ fmt_d (- bitmap_top slot) @ '' ''
                 @ fmt_d (int (width bm)) @ '' '' @ fmt_d (int (rows bm)) @ ''\<newline>'') s
      in print_rows bm 0 0 s1)"

function glyph_loop :: "world \<Rightarrow> int \<Rightarrow> int \<Rightarrow> io \<Rightarrow> int option \<times> io" where
  "glyph_loop w glyph_index last_glyph_index s =
     (if glyph_index \<le> last_glyph_index then
        if load_glyph_error w glyph_index \<noteq> 0 then
          (Some (load_glyph_error w glyph_index),
           eprintf (''failed to load glyph '' @ fmt_d glyph_index @ ''\<newline>'')
             (ft (Load_Glyph glyph_index) s))
        else if render_glyph_error w glyph_index \<noteq> 0 then
          (Some (render_glyph_error w glyph_index),
           eprintf (''failed to render glyph '' @ fmt_d glyph_index @ ''\<newline>'')
             (ft (Render_Glyph glyph_index) (ft (Load_Glyph glyph_index) s)))
        else
          glyph_loop w (glyph_index + 1) last_glyph_index
            (print_glyph (glyph w glyph_index) glyph_index
               (ft (Render_Glyph glyph_index) (ft (Load_Glyph glyph_index) s)))
      else (None, s))"
  by pat_completeness auto
termination
  by (relation "measure (\<lambda>(w, glyph_index, last_glyph_index, s). nat (last_glyph_index + 1 - glyph_index))") auto

declare glyph_loop.simps [simp del]

subsection \<open>The whole of \<open>render\<close> (lines 27 to 134)\<close>

definition render :: "world \<Rightarrow> string \<Rightarrow> int \<Rightarrow> int \<Rightarrow> int \<Rightarrow> io \<Rightarrow> int \<times> io" where
  "render w face_name pixel_size first_glyph_index last_glyph_index s =
     (if init_error w \<noteq> 0 then
        (init_error w, eprintf ''failed to init freetype\<newline>'' (ft Init_FreeType s))
      else if new_face_error w \<noteq> 0 then
        (new_face_error w,
         eprintf (''failed to create face for '' @ [CHR 0x27] @ face_name @ [CHR 0x27] @ ''\<newline>'')
           (ft (New_Face face_name) (ft Init_FreeType s)))
      else if pixel_size < 4 then
        (100,
         eprintf (''size '' @ fmt_d pixel_size @ '' too small'')
           (ft (New_Face face_name) (ft Init_FreeType s)))
      else if set_pixel_sizes_error w pixel_size \<noteq> 0 then
        (set_pixel_sizes_error w pixel_size,
         eprintf (''failed to set size '' @ fmt_d pixel_size @ ''\<newline>'')
           (ft (Set_Pixel_Sizes pixel_size) (ft (New_Face face_name) (ft Init_FreeType s))))
      else
        (case resolve_range first_glyph_index last_glyph_index (num_glyphs (face w)) of
           (first_index, last_index) \<Rightarrow>
             (case glyph_loop w first_index last_index
                     (print_header w face_name pixel_size first_index last_index
                        (ft (Set_Pixel_Sizes pixel_size) (ft (New_Face face_name) (ft Init_FreeType s)))) of
                (Some error, s') \<Rightarrow> (error, s')
              | (None, s') \<Rightarrow> (0, printf ''# EOF\<newline>'' s'))))"

section \<open>\<open>main\<close> (lines 137 to 163)\<close>

definition main :: "world \<Rightarrow> string list \<Rightarrow> int \<times> io" where
  "main w argv =
     (let argc = int (length argv);
          s = \<lparr>stdout = [], stderr = [], ft_calls = []\<rparr>
      in if argc < 2 then
           (- 1,
            eprintf ((case argv of [] \<Rightarrow> ''(null)'' | a # _ \<Rightarrow> a)
                     @ '' font-name [pixel-height [first-glyph [last-glyph]]]\<newline>'') s)
         else if argc > 2 \<and> (atoi (argv ! 2) < 1 \<or> atoi (argv ! 2) > 1000) then
           (- 1, eprintf (''bad pixel height '' @ [CHR 0x27] @ argv ! 2 @ [CHR 0x27] @ ''\<newline>'') s)
         else
           render w (argv ! 1)
             (if argc > 2 then atoi (argv ! 2) else 48)
             (if argc > 3 then atoi (argv ! 3) else 0)
             (if argc > 4 then atoi (argv ! 4) else - 1)
             s)"

section \<open>Derived texts\<close>

text \<open>
  The text one call of \<open>print_row\<close>, \<open>print_glyph\<close> and \<open>print_header\<close> appends to the
  standard output.
\<close>

definition row_text :: "FT_Bitmap \<Rightarrow> int \<Rightarrow> string" where
  "row_text bm p = stdout (print_row bm p \<lparr>stdout = [], stderr = [], ft_calls = []\<rparr>)"

definition glyph_text :: "FT_GlyphSlot \<Rightarrow> int \<Rightarrow> string" where
  "glyph_text slot glyph_index =
     stdout (print_glyph slot glyph_index \<lparr>stdout = [], stderr = [], ft_calls = []\<rparr>)"

definition header_text :: "world \<Rightarrow> string \<Rightarrow> int \<Rightarrow> int \<Rightarrow> int \<Rightarrow> string" where
  "header_text w face_name pixel_size first_index last_index =
     stdout (print_header w face_name pixel_size first_index last_index
               \<lparr>stdout = [], stderr = [], ft_calls = []\<rparr>)"

text \<open>
  The pixels of the row that starts at offset \<open>p\<close>, as \<open>print_row\<close> reads them.
\<close>

definition row_pixels :: "FT_Bitmap \<Rightarrow> int \<Rightarrow> 8 word list" where
  "row_pixels bm p = map (\<lambda>cc. buffer bm (p + int cc)) [0..<width bm]"

text \<open>
  The world in which no FreeType call fails and everything else is the same: the run
  in it is the dump that was intended.
\<close>

definition no_failures :: "world \<Rightarrow> world" where
  "no_failures w =
     w\<lparr>init_error := 0, new_face_error := 0, set_pixel_sizes_error := (\<lambda>_. 0),
       load_glyph_error := (\<lambda>_. 0), render_glyph_error := (\<lambda>_. 0)\<rparr>"

text \<open>
  Two predicates for the proofs: a text that ends in a line break after a character
  other than \<open>F\<close>, and the characters a pixel is written with.
\<close>

definition line_end_ok :: "string \<Rightarrow> bool" where
  "line_end_ok t =
     (t \<noteq> [] \<and> butlast t \<noteq> [] \<and> last t = CHR 0x0A \<and> last (butlast t) \<noteq> CHR ''F'')"

definition pixel_chars :: "char set" where
  "pixel_chars = set ''0123456789abcdef ''"

section \<open>Reading a row back\<close>

text \<open>
  The program has no reader for its format. \<open>decode_row_spec\<close> follows the words of
  the specification's round-trip property: a pair of spaces is 0, a pair of hex digits
  is the byte it spells, and the columns a line leaves out are 0. \<open>nonzero_prefix\<close> is
  a row without its trailing zeros.
\<close>

definition hex_value :: "char \<Rightarrow> nat" where
  "hex_value c =
     (let n = (of_char c :: nat)
      in if 48 \<le> n \<and> n \<le> 57 then n - 48
         else if 97 \<le> n \<and> n \<le> 102 then n - 87
         else if 65 \<le> n \<and> n \<le> 70 then n - 55
         else 0)"

fun decode_pairs_spec :: "string \<Rightarrow> 8 word list" where
  "decode_pairs_spec (a # b # cs) =
     (if a = CHR '' '' \<and> b = CHR '' '' then 0 else of_nat (hex_value a * 16 + hex_value b))
     # decode_pairs_spec cs"
| "decode_pairs_spec _ = []"

definition decode_row_spec :: "nat \<Rightarrow> string \<Rightarrow> 8 word list" where
  "decode_row_spec w line =
     (let vs = decode_pairs_spec (takeWhile (\<lambda>c. c \<noteq> CHR 0x0A) (drop 1 line))
      in vs @ replicate (w - length vs) 0)"

definition nonzero_prefix :: "8 word list \<Rightarrow> 8 word list" where
  "nonzero_prefix row = rev (dropWhile (\<lambda>v. v = 0) (rev row))"

section \<open>Example inputs\<close>

text \<open>
  A bitmap of two rows of four pixels, \<open>00 1f a0 00\<close> and \<open>00 00 00 00\<close>; a font of two
  glyphs with that bitmap; the same font with a renderer that fails on glyph 1, with a
  library that does not start, and with a file that cannot be opened; and a font without
  glyphs, in which no glyph can be loaded.
\<close>

definition example_bitmap :: FT_Bitmap where
  "example_bitmap =
     \<lparr>rows = 2, width = 4, pitch = 4,
      buffer = (\<lambda>i. if i = 1 then 0x1f else if i = 2 then 0xa0 else 0)\<rparr>"

definition empty_io :: io where
  "empty_io = \<lparr>stdout = [], stderr = [], ft_calls = []\<rparr>"

definition example_world :: world where
  "example_world =
     \<lparr>init_error = 0, new_face_error = 0,
      face = \<lparr>family_name = ''Noto Sans'', style_name = ''Regular'', units_per_EM = 1000,
              ascender = 1069, descender = - 293, num_glyphs = 2\<rparr>,
      set_pixel_sizes_error = (\<lambda>_. 0),
      load_glyph_error = (\<lambda>_. 0),
      render_glyph_error = (\<lambda>_. 0),
      glyph = (\<lambda>i. \<lparr>advance_x = 100 * i, bitmap_left = 1, bitmap_top = 3,
                     bitmap = example_bitmap\<rparr>),
      local_time = ''2020-01-01 00:00:00''\<rparr>"

definition failing_world :: world where
  "failing_world = example_world\<lparr>render_glyph_error := (\<lambda>g. if g = 1 then 19 else 0)\<rparr>"

definition broken_library_world :: world where
  "broken_library_world = example_world\<lparr>init_error := 5\<rparr>"

definition unreadable_font_world :: world where
  "unreadable_font_world = example_world\<lparr>new_face_error := 1\<rparr>"

definition empty_font_world :: world where
  "empty_font_world =
     example_world\<lparr>face := (face example_world)\<lparr>num_glyphs := 0\<rparr>,
                   load_glyph_error := (\<lambda>_. 16)\<rparr>"

section \<open>What the printing functions write\<close>

lemma stdout_printf [simp]: "stdout (printf t s) = stdout s @ t"
  by (simp add: printf_def)

lemma stdout_eprintf [simp]: "stdout (eprintf t s) = stdout s"
  by (simp add: eprintf_def)

lemma stdout_ft [simp]: "stdout (ft c s) = stdout s"
  by (simp add: ft_def)

lemma scan_max_step:
  "max_cc \<ge> 0 \<and> buf (p + max_cc) = 0 \<Longrightarrow> scan_max buf p max_cc = scan_max buf p (max_cc - 1)"
  by (subst scan_max.simps) simp

lemma scan_max_stop:
  "\<not> (max_cc \<ge> 0 \<and> buf (p + max_cc) = 0) \<Longrightarrow> scan_max buf p max_cc = max_cc"
  by (subst scan_max.simps) auto

lemma scan_max_bounds: "- 1 \<le> m \<Longrightarrow> - 1 \<le> scan_max buf p m \<and> scan_max buf p m \<le> m"
proof (induction buf p m rule: scan_max.induct)
  case (1 buf p max_cc)
  show ?case
  proof (cases "max_cc \<ge> 0 \<and> buf (p + max_cc) = 0")
    case True
    with 1 show ?thesis by (simp add: scan_max_step)
  next
    case False
    with 1 show ?thesis by (simp add: scan_max_stop)
  qed
qed

lemma scan_max_nonzero: "0 \<le> scan_max buf p m \<Longrightarrow> buf (p + scan_max buf p m) \<noteq> 0"
proof (induction buf p m rule: scan_max.induct)
  case (1 buf p max_cc)
  show ?case
  proof (cases "max_cc \<ge> 0 \<and> buf (p + max_cc) = 0")
    case True
    with 1 show ?thesis by (simp add: scan_max_step)
  next
    case False
    with 1 show ?thesis by (simp add: scan_max_stop)
  qed
qed

lemma scan_max_zeros: "scan_max buf p m < c \<Longrightarrow> c \<le> m \<Longrightarrow> buf (p + c) = 0"
proof (induction buf p m rule: scan_max.induct)
  case (1 buf p max_cc)
  show ?case
  proof (cases "max_cc \<ge> 0 \<and> buf (p + max_cc) = 0")
    case True
    show ?thesis
    proof (cases "c = max_cc")
      case True
      with \<open>max_cc \<ge> 0 \<and> buf (p + max_cc) = 0\<close> show ?thesis by simp
    next
      case False
      with 1 True show ?thesis by (simp add: scan_max_step)
    qed
  next
    case False
    with 1 show ?thesis by (simp add: scan_max_stop)
  qed
qed

lemma scan_max_all_zero:
  "- 1 \<le> m \<Longrightarrow> (\<forall>c. 0 \<le> c \<and> c \<le> m \<longrightarrow> buf (p + c) = 0) \<Longrightarrow> scan_max buf p m = - 1"
proof -
  assume m: "- 1 \<le> m" and z: "\<forall>c. 0 \<le> c \<and> c \<le> m \<longrightarrow> buf (p + c) = 0"
  have b: "- 1 \<le> scan_max buf p m \<and> scan_max buf p m \<le> m"
    using m by (rule scan_max_bounds)
  have "\<not> 0 \<le> scan_max buf p m"
  proof
    assume nn: "0 \<le> scan_max buf p m"
    then have "buf (p + scan_max buf p m) \<noteq> 0" by (rule scan_max_nonzero)
    moreover have "buf (p + scan_max buf p m) = 0" using z nn b by blast
    ultimately show False by simp
  qed
  then show ?thesis using b by linarith
qed

lemma stdout_print_cols:
  "stdout (print_cols buf p m cc s) =
     stdout s @ concat (map (\<lambda>c. print_pixel (buf (p + c))) [cc..m - 1])"
proof (induction buf p m cc s rule: print_cols.induct)
  case (1 buf p max_cc cc s)
  show ?case
  proof (cases "cc < max_cc")
    case True
    then have "[cc..max_cc - 1] = cc # [cc + 1..max_cc - 1]"
      by (simp add: upto_rec1)
    with 1 True show ?thesis by (subst print_cols.simps) simp
  next
    case False
    then show ?thesis by (subst print_cols.simps) simp
  qed
qed

lemma stdout_print_row:
  "stdout (print_row bm p s) =
     stdout s @ '':'' @
     concat (map (\<lambda>c. print_pixel (buffer bm (p + c)))
               [0..scan_max (buffer bm) p (int (width bm) - 1) - 1]) @ ''\<newline>''"
  by (simp add: print_row_def Let_def stdout_print_cols)

lemma stdout_print_row_text: "stdout (print_row bm p s) = stdout s @ row_text bm p"
  by (simp add: row_text_def stdout_print_row)

lemma stdout_print_rows:
  "stdout (print_rows bm rc p s) =
     stdout s @ concat (map (\<lambda>r. row_text bm (p + int (r - rc) * pitch bm)) [rc..<rows bm])"
proof (induction bm rc p s rule: print_rows.induct)
  case (1 bm rc p s)
  show ?case
  proof (cases "rc < rows bm")
    case True
    have split: "[rc..<rows bm] = rc # [rc + 1..<rows bm]"
      using True by (simp add: upt_conv_Cons)
    have shift: "map (\<lambda>r. row_text bm (p + pitch bm + int (r - (rc + 1)) * pitch bm)) [rc + 1..<rows bm]
             = map (\<lambda>r. row_text bm (p + int (r - rc) * pitch bm)) [rc + 1..<rows bm]"
    proof (rule map_cong [OF refl])
      fix r assume "r \<in> set [rc + 1..<rows bm]"
      then have "int (r - rc) = int (r - (rc + 1)) + 1" by auto
      then show "row_text bm (p + pitch bm + int (r - (rc + 1)) * pitch bm)
                 = row_text bm (p + int (r - rc) * pitch bm)"
        by (simp add: algebra_simps)
    qed
    have "stdout (print_rows bm rc p s) =
            stdout (print_rows bm (rc + 1) (p + pitch bm) (print_row bm p s))"
      using True by (subst print_rows.simps) simp
    also have "\<dots> = stdout (print_row bm p s) @
        concat (map (\<lambda>r. row_text bm (p + pitch bm + int (r - (rc + 1)) * pitch bm))
                  [rc + 1..<rows bm])"
      using 1 True by simp
    also have "\<dots> = stdout s @ row_text bm p @
        concat (map (\<lambda>r. row_text bm (p + int (r - rc) * pitch bm)) [rc + 1..<rows bm])"
      by (simp only: shift stdout_print_row_text append_assoc)
    also have "\<dots> = stdout s @
        concat (map (\<lambda>r. row_text bm (p + int (r - rc) * pitch bm)) (rc # [rc + 1..<rows bm]))"
      by simp
    finally show ?thesis by (simp only: split)
  next
    case False
    then show ?thesis by (subst print_rows.simps) simp
  qed
qed

subsection \<open>Line ends\<close>

lemma hex_digit_pixel_chars: "d < 16 \<Longrightarrow> hex_digit d \<in> pixel_chars"
proof -
  assume "d < 16"
  then have "''0123456789abcdef'' ! d \<in> set ''0123456789abcdef''"
    by (intro nth_mem) simp
  moreover have "set ''0123456789abcdef'' \<subseteq> pixel_chars"
    by (simp add: pixel_chars_def)
  ultimately show ?thesis
    unfolding hex_digit_def by (rule set_mp [rotated])
qed

lemma space_pixel_chars: "CHR '' '' \<in> pixel_chars"
  by (simp add: pixel_chars_def)

lemma F_not_pixel_chars: "CHR ''F'' \<notin> pixel_chars"
  by (simp add: pixel_chars_def)

lemma dec_nat_last: "dec_nat n \<noteq> [] \<and> last (dec_nat n) = hex_digit (n mod 10)"
  by (subst (1 2) dec_nat.simps) simp

lemma fmt_d_last: "fmt_d i \<noteq> [] \<and> last (fmt_d i) \<noteq> CHR ''F''"
proof -
  have "last (dec_nat n) \<noteq> CHR ''F''" for n
  proof -
    have "hex_digit (n mod 10) \<in> pixel_chars" by (rule hex_digit_pixel_chars) simp
    then show ?thesis using F_not_pixel_chars dec_nat_last [of n] by auto
  qed
  then show ?thesis using dec_nat_last by (simp add: fmt_d_def)
qed

lemma line_end_ok_append: "line_end_ok b \<Longrightarrow> line_end_ok (a @ b)"
  by (simp add: line_end_ok_def butlast_append)

lemma line_end_ok_fmt_d: "line_end_ok (a @ fmt_d i @ ''\<newline>'')"
  using fmt_d_last [of i] by (simp add: line_end_ok_def butlast_append)

lemma line_end_ok_not_eof: "line_end_ok t \<Longrightarrow> \<not> suffix ''# EOF\<newline>'' t"
  by (auto simp add: line_end_ok_def suffix_def butlast_append)

lemma line_end_ok_eof: "line_end_ok t \<Longrightarrow> suffix ''\<newline># EOF\<newline>'' (t @ ''# EOF\<newline>'')"
proof -
  assume "line_end_ok t"
  then have "t \<noteq> []" "last t = CHR 0x0A" by (auto simp add: line_end_ok_def)
  then have "t = butlast t @ ''\<newline>''" by (metis append_butlast_last_id)
  then have "t @ ''# EOF\<newline>'' = butlast t @ ''\<newline># EOF\<newline>''"
    by (metis append_assoc append_Cons append_Nil)
  then show ?thesis by (metis suffixI)
qed

lemma print_pixel_chars: "set (print_pixel v) \<subseteq> pixel_chars"
proof -
  have "unat v div 16 < 16" using unsigned_less [of v, where ?'a = nat] by simp
  then have a: "hex_digit (unat v div 16) \<in> pixel_chars" by (rule hex_digit_pixel_chars)
  have b: "hex_digit (unat v mod 16) \<in> pixel_chars" by (rule hex_digit_pixel_chars) simp
  show ?thesis using a b space_pixel_chars by (simp add: print_pixel_def fmt_02x_def)
qed

lemma row_pairs_chars:
  "set (concat (map (\<lambda>c. print_pixel (buf (p + c))) xs)) \<subseteq> pixel_chars"
  using print_pixel_chars by auto

lemma line_end_ok_row_text: "line_end_ok (row_text bm p)"
proof -
  define pairs where "pairs = concat (map (\<lambda>c. print_pixel (buffer bm (p + c)))
               [0..scan_max (buffer bm) p (int (width bm) - 1) - 1])"
  have rt: "row_text bm p = ('':'' @ pairs) @ ''\<newline>''"
    by (simp add: row_text_def stdout_print_row pairs_def)
  have sub: "set pairs \<subseteq> pixel_chars"
    unfolding pairs_def by (rule row_pairs_chars)
  have "last ('':'' @ pairs) \<noteq> CHR ''F''"
  proof (cases "pairs = []")
    case True
    then show ?thesis by simp
  next
    case False
    then have "last pairs \<in> pixel_chars" using sub last_in_set by blast
    then show ?thesis using False F_not_pixel_chars by auto
  qed
  then show ?thesis unfolding rt by (simp add: line_end_ok_def)
qed

lemma line_end_ok_print_rows:
  "line_end_ok (stdout s) \<Longrightarrow> line_end_ok (stdout (print_rows bm rc p s))"
proof (induction bm rc p s rule: print_rows.induct)
  case (1 bm rc p s)
  show ?case
  proof (cases "rc < rows bm")
    case True
    have "line_end_ok (stdout (print_row bm p s))"
      by (simp add: stdout_print_row_text line_end_ok_append line_end_ok_row_text)
    with 1 True show ?thesis by (subst print_rows.simps) simp
  next
    case False
    with 1 show ?thesis by (subst print_rows.simps) simp
  qed
qed

lemma stdout_print_glyph: "stdout (print_glyph slot g s) = stdout s @ glyph_text slot g"
  by (simp add: glyph_text_def print_glyph_def Let_def stdout_print_rows)

lemma line_end_ok_glyph_text: "line_end_ok (glyph_text slot g)"
proof -
  define s0 :: io where "s0 = \<lparr>stdout = [], stderr = [], ft_calls = []\<rparr>"
  define hd_line where "hd_line = ''> glyph: '' @ fmt_d g @ '';''
      @ advance_text (signed_take_bit 31 (advance_x slot)) @ '';''
      @ fmt_d (bitmap_left slot) @ '' '' @ fmt_d (- bitmap_top slot) @ '' ''
      @ fmt_d (int (width (bitmap slot))) @ '' ''"
  have "line_end_ok (hd_line @ fmt_d (int (rows (bitmap slot))) @ ''\<newline>'')"
    by (rule line_end_ok_fmt_d)
  then have "line_end_ok (stdout (printf (hd_line @ fmt_d (int (rows (bitmap slot))) @ ''\<newline>'') s0))"
    by (simp add: s0_def)
  then have "line_end_ok (stdout (print_rows (bitmap slot) 0 0
      (printf (hd_line @ fmt_d (int (rows (bitmap slot))) @ ''\<newline>'') s0)))"
    by (rule line_end_ok_print_rows)
  then show ?thesis
    by (simp add: glyph_text_def print_glyph_def Let_def s0_def hd_line_def)
qed

lemma stdout_print_header:
  "stdout (print_header w fn ps f l s) = stdout s @ header_text w fn ps f l"
  by (simp add: header_text_def print_header_def)

lemma header_text_eq:
  "header_text w fn ps f l =
     ''# generated on '' @ local_time w @ ''\<newline>''
     @ ''> file: '' @ fn @ ''\<newline>''
     @ ''> name: '' @ family_name (face w) @ ''-'' @ style_name (face w) @ ''\<newline>''
     @ ''> upem: '' @ fmt_d (units_per_EM (face w)) @ ''\<newline>''
     @ ''> ascent: '' @ fmt_d (ascender (face w)) @ ''\<newline>''
     @ ''> descent: '' @ fmt_d (- descender (face w)) @ ''\<newline>''
     @ ''> size: '' @ fmt_d ps @ ''\<newline>''
     @ ''> font_glyphs: '' @ fmt_d (num_glyphs (face w)) @ ''\<newline>''
     @ ''# first: '' @ fmt_d f @ ''\<newline>''
     @ ''# last: '' @ fmt_d l @ ''\<newline>''
     @ ''> num_glyphs: '' @ fmt_d (l - f + 1) @ ''\<newline>''"
  by (simp add: header_text_def print_header_def)

lemma line_end_ok_header_text: "line_end_ok (header_text w fn ps f l)"
proof -
  have "\<exists>a. header_text w fn ps f l = a @ fmt_d (l - f + 1) @ ''\<newline>''"
    unfolding header_text_eq by (metis append_assoc)
  then show ?thesis using line_end_ok_fmt_d by auto
qed

subsection \<open>The glyph loop\<close>

lemma glyph_loop_stop:
  "\<not> gi \<le> l \<Longrightarrow> glyph_loop w gi l s = (None, s)"
  by (subst glyph_loop.simps) simp

lemma glyph_loop_load_fail:
  "gi \<le> l \<Longrightarrow> load_glyph_error w gi \<noteq> 0 \<Longrightarrow>
   glyph_loop w gi l s =
     (Some (load_glyph_error w gi),
      eprintf (''failed to load glyph '' @ fmt_d gi @ ''\<newline>'') (ft (Load_Glyph gi) s))"
  by (subst glyph_loop.simps) simp

lemma glyph_loop_render_fail:
  "gi \<le> l \<Longrightarrow> load_glyph_error w gi = 0 \<Longrightarrow> render_glyph_error w gi \<noteq> 0 \<Longrightarrow>
   glyph_loop w gi l s =
     (Some (render_glyph_error w gi),
      eprintf (''failed to render glyph '' @ fmt_d gi @ ''\<newline>'')
        (ft (Render_Glyph gi) (ft (Load_Glyph gi) s)))"
  by (subst glyph_loop.simps) simp

lemma glyph_loop_step:
  "gi \<le> l \<Longrightarrow> load_glyph_error w gi = 0 \<Longrightarrow> render_glyph_error w gi = 0 \<Longrightarrow>
   glyph_loop w gi l s =
     glyph_loop w (gi + 1) l
       (print_glyph (glyph w gi) gi (ft (Render_Glyph gi) (ft (Load_Glyph gi) s)))"
  by (subst glyph_loop.simps) simp

lemma glyph_loop_cases:
  obtains (stop) "\<not> gi \<le> l"
  | (load_fail) "gi \<le> l" "load_glyph_error w gi \<noteq> 0"
  | (render_fail) "gi \<le> l" "load_glyph_error w gi = 0" "render_glyph_error w gi \<noteq> 0"
  | (step) "gi \<le> l" "load_glyph_error w gi = 0" "render_glyph_error w gi = 0"
  by blast

lemma glyph_loop_stdout:
  "\<exists>post. stdout (snd (glyph_loop w gi l s)) = stdout s @ post \<and> (post = [] \<or> line_end_ok post)"
proof (induction w gi l s rule: glyph_loop.induct)
  case (1 w gi l s)
  show ?case
  proof (cases rule: glyph_loop_cases [where gi = gi and l = l and w = w])
    case stop
    then show ?thesis by (simp add: glyph_loop_stop)
  next
    case load_fail
    then show ?thesis by (simp add: glyph_loop_load_fail)
  next
    case render_fail
    then show ?thesis by (simp add: glyph_loop_render_fail)
  next
    case step
    let ?s1 = "print_glyph (glyph w gi) gi (ft (Render_Glyph gi) (ft (Load_Glyph gi) s))"
    from 1 step obtain post where
      p: "stdout (snd (glyph_loop w (gi + 1) l ?s1)) = stdout ?s1 @ post"
      and ok: "post = [] \<or> line_end_ok post"
      by blast
    have s1: "stdout ?s1 = stdout s @ glyph_text (glyph w gi) gi"
      by (simp add: stdout_print_glyph)
    have "line_end_ok (glyph_text (glyph w gi) gi @ post)"
      using ok line_end_ok_glyph_text [of "glyph w gi" gi] by (auto simp add: line_end_ok_append)
    moreover have "stdout (snd (glyph_loop w gi l s)) = stdout s @ (glyph_text (glyph w gi) gi @ post)"
      using step p s1 by (simp add: glyph_loop_step)
    ultimately show ?thesis by blast
  qed
qed

lemma glyph_loop_None_iff:
  "fst (glyph_loop w gi l s) = None \<longleftrightarrow>
     (\<forall>g. gi \<le> g \<and> g \<le> l \<longrightarrow> load_glyph_error w g = 0 \<and> render_glyph_error w g = 0)"
proof (induction w gi l s rule: glyph_loop.induct)
  case (1 w gi l s)
  show ?case
  proof (cases rule: glyph_loop_cases [where gi = gi and l = l and w = w])
    case stop
    then show ?thesis by (simp add: glyph_loop_stop)
  next
    case load_fail
    then show ?thesis by (auto simp add: glyph_loop_load_fail)
  next
    case render_fail
    then show ?thesis by (auto simp add: glyph_loop_render_fail)
  next
    case step
    let ?s1 = "print_glyph (glyph w gi) gi (ft (Render_Glyph gi) (ft (Load_Glyph gi) s))"
    have ih: "fst (glyph_loop w (gi + 1) l ?s1) = None \<longleftrightarrow>
       (\<forall>g. gi + 1 \<le> g \<and> g \<le> l \<longrightarrow> load_glyph_error w g = 0 \<and> render_glyph_error w g = 0)"
      using 1 step by blast
    have "(\<forall>g. gi \<le> g \<and> g \<le> l \<longrightarrow> load_glyph_error w g = 0 \<and> render_glyph_error w g = 0)
        \<longleftrightarrow> (\<forall>g. gi + 1 \<le> g \<and> g \<le> l \<longrightarrow> load_glyph_error w g = 0 \<and> render_glyph_error w g = 0)"
    proof
      assume a: "\<forall>g. gi + 1 \<le> g \<and> g \<le> l \<longrightarrow> load_glyph_error w g = 0 \<and> render_glyph_error w g = 0"
      show "\<forall>g. gi \<le> g \<and> g \<le> l \<longrightarrow> load_glyph_error w g = 0 \<and> render_glyph_error w g = 0"
      proof (intro allI impI)
        fix g assume g: "gi \<le> g \<and> g \<le> l"
        show "load_glyph_error w g = 0 \<and> render_glyph_error w g = 0"
        proof (cases "g = gi")
          case True
          then show ?thesis using step by simp
        next
          case False
          then have "gi + 1 \<le> g" using g by simp
          then show ?thesis using a g by blast
        qed
      qed
    qed auto
    then show ?thesis using ih step by (simp add: glyph_loop_step)
  qed
qed

lemma glyph_loop_Some:
  "fst (glyph_loop w gi l s) = Some e \<Longrightarrow>
     e \<noteq> 0 \<and> (\<exists>g. gi \<le> g \<and> g \<le> l \<and> (e = load_glyph_error w g \<or> e = render_glyph_error w g))"
proof (induction w gi l s rule: glyph_loop.induct)
  case (1 w gi l s)
  show ?case
  proof (cases rule: glyph_loop_cases [where gi = gi and l = l and w = w])
    case stop
    then show ?thesis using "1.prems" by (simp add: glyph_loop_stop)
  next
    case load_fail
    then show ?thesis using "1.prems" by (auto simp add: glyph_loop_load_fail)
  next
    case render_fail
    then show ?thesis using "1.prems" by (auto simp add: glyph_loop_render_fail)
  next
    case step
    let ?s1 = "print_glyph (glyph w gi) gi (ft (Render_Glyph gi) (ft (Load_Glyph gi) s))"
    have "fst (glyph_loop w (gi + 1) l ?s1) = Some e"
      using "1.prems" step by (simp add: glyph_loop_step)
    then have "e \<noteq> 0 \<and> (\<exists>g. gi + 1 \<le> g \<and> g \<le> l \<and>
        (e = load_glyph_error w g \<or> e = render_glyph_error w g))"
      using "1.IH" step by blast
    then obtain g where "e \<noteq> 0" "gi + 1 \<le> g" "g \<le> l"
      "e = load_glyph_error w g \<or> e = render_glyph_error w g" by blast
    moreover from this have "gi \<le> g" by simp
    ultimately show ?thesis by blast
  qed
qed

lemma no_failures_simps [simp]:
  "init_error (no_failures w) = 0"
  "new_face_error (no_failures w) = 0"
  "set_pixel_sizes_error (no_failures w) ps = 0"
  "load_glyph_error (no_failures w) g = 0"
  "render_glyph_error (no_failures w) g = 0"
  "face (no_failures w) = face w"
  "glyph (no_failures w) = glyph w"
  "local_time (no_failures w) = local_time w"
  by (simp_all add: no_failures_def)

lemma header_text_no_failures [simp]:
  "header_text (no_failures w) fn ps f l = header_text w fn ps f l"
  by (simp add: header_text_eq)

lemma glyph_loop_intended:
  "prefix (stdout (snd (glyph_loop w gi l s))) (stdout (snd (glyph_loop (no_failures w) gi l s)))
   \<and> (fst (glyph_loop w gi l s) = None \<longrightarrow>
        stdout (snd (glyph_loop w gi l s)) = stdout (snd (glyph_loop (no_failures w) gi l s)))"
proof (induction w gi l s rule: glyph_loop.induct)
  case (1 w gi l s)
  have ext: "prefix (stdout s) (stdout (snd (glyph_loop (no_failures w) gi l s)))"
    using glyph_loop_stdout [of "no_failures w" gi l s] by (auto simp add: prefix_def)
  show ?case
  proof (cases rule: glyph_loop_cases [where gi = gi and l = l and w = w])
    case stop
    then show ?thesis by (simp add: glyph_loop_stop)
  next
    case load_fail
    then show ?thesis using ext by (simp add: glyph_loop_load_fail)
  next
    case render_fail
    then show ?thesis using ext by (simp add: glyph_loop_render_fail)
  next
    case step
    let ?s1 = "print_glyph (glyph w gi) gi (ft (Render_Glyph gi) (ft (Load_Glyph gi) s))"
    have "glyph_loop (no_failures w) gi l s = glyph_loop (no_failures w) (gi + 1) l ?s1"
      using step by (simp add: glyph_loop_step)
    moreover have "glyph_loop w gi l s = glyph_loop w (gi + 1) l ?s1"
      using step by (simp add: glyph_loop_step)
    ultimately show ?thesis using "1.IH" step by simp
  qed
qed

subsection \<open>The run\<close>

lemma render_early:
  "init_error w \<noteq> 0 \<or> new_face_error w \<noteq> 0 \<or> ps < 4 \<or> set_pixel_sizes_error w ps \<noteq> 0 \<Longrightarrow>
   fst (render w fn ps rf rl s) \<noteq> 0 \<and> stdout (snd (render w fn ps rf rl s)) = stdout s"
  by (auto simp add: render_def)

lemma render_late:
  "init_error w = 0 \<Longrightarrow> new_face_error w = 0 \<Longrightarrow> 4 \<le> ps \<Longrightarrow> set_pixel_sizes_error w ps = 0 \<Longrightarrow>
   resolve_range rf rl (num_glyphs (face w)) = (f, l) \<Longrightarrow>
   render w fn ps rf rl s =
     (case glyph_loop w f l
             (print_header w fn ps f l
                (ft (Set_Pixel_Sizes ps) (ft (New_Face fn) (ft Init_FreeType s)))) of
        (Some e, s') \<Rightarrow> (e, s')
      | (None, s') \<Rightarrow> (0, printf ''# EOF\<newline>'' s'))"
  by (simp add: render_def)

lemma render_late_stdout:
  fixes fn :: string and s :: io
  assumes "init_error w = 0" "new_face_error w = 0" "4 \<le> ps" "set_pixel_sizes_error w ps = 0"
    and rr: "resolve_range rf rl (num_glyphs (face w)) = (f, l)"
  defines "r \<equiv> glyph_loop w f l
             (print_header w fn ps f l
                (ft (Set_Pixel_Sizes ps) (ft (New_Face fn) (ft Init_FreeType s))))"
  shows "fst (render w fn ps rf rl s) = (case fst r of Some e \<Rightarrow> e | None \<Rightarrow> 0)"
    and "stdout (snd (render w fn ps rf rl s)) =
           (case fst r of Some e \<Rightarrow> stdout (snd r) | None \<Rightarrow> stdout (snd r) @ ''# EOF\<newline>'')"
    and "\<exists>post. stdout (snd r) = stdout s @ header_text w fn ps f l @ post
                \<and> line_end_ok (header_text w fn ps f l @ post)"
proof -
  have eq: "render w fn ps rf rl s =
     (case r of (Some e, s') \<Rightarrow> (e, s') | (None, s') \<Rightarrow> (0, printf ''# EOF\<newline>'' s'))"
    unfolding r_def using assms(1-5) by (rule render_late)
  show "fst (render w fn ps rf rl s) = (case fst r of Some e \<Rightarrow> e | None \<Rightarrow> 0)"
    unfolding eq by (cases r) (simp split: option.splits)
  show "stdout (snd (render w fn ps rf rl s)) =
           (case fst r of Some e \<Rightarrow> stdout (snd r) | None \<Rightarrow> stdout (snd r) @ ''# EOF\<newline>'')"
    unfolding eq by (cases r) (simp split: option.splits)
  obtain post where p: "stdout (snd r) =
      stdout (print_header w fn ps f l
                (ft (Set_Pixel_Sizes ps) (ft (New_Face fn) (ft Init_FreeType s)))) @ post"
    and ok: "post = [] \<or> line_end_ok post"
    unfolding r_def using glyph_loop_stdout by blast
  have "line_end_ok (header_text w fn ps f l @ post)"
    using ok line_end_ok_header_text [of w fn ps f l] by (auto simp add: line_end_ok_append)
  then show "\<exists>post. stdout (snd r) = stdout s @ header_text w fn ps f l @ post
                \<and> line_end_ok (header_text w fn ps f l @ post)"
    using p by (auto simp add: stdout_print_header)
qed

lemma print_header_no_failures [simp]:
  "print_header (no_failures w) fn ps f l s = print_header w fn ps f l s"
  by (simp add: print_header_def)

subsection \<open>Values of type \<open>int\<close>\<close>

lemma to_int_id: "- (2 ^ 31) \<le> k \<Longrightarrow> k < 2 ^ 31 \<Longrightarrow> signed_take_bit 31 (k :: int) = k"
  by (rule signed_take_bit_int_eq_self) simp_all

lemma sint_32_range: "- (2 ^ 31) \<le> sint (x :: 32 word) \<and> sint x < 2 ^ 31"
  using sint_ge [of x] sint_lt [of x] by simp

lemma atoi_is_int: "- (2 ^ 31) \<le> atoi str \<and> atoi str < 2 ^ 31"
  unfolding atoi_def
  using signed_take_bit_int_greater_eq_minus_exp [of 31 "strtol str"]
    signed_take_bit_int_less_exp [of 31 "strtol str"]
  by simp

lemma atoi_narrows: "atoi ''4294967344'' = 48 \<and> atoi ''  -12abc'' = - 12 \<and> atoi ''x'' = 0"
  by code_simp

section \<open>The glyph range\<close>

text \<open>
  C3, as the program has it. For every glyph count \<open>n\<close> with \<open>0 < n \<le> 2^31\<close>, the
  counts whose \<open>n - 1\<close> is an \<open>int\<close>, and all requested indices, the resolved range
  \<open>(f, l)\<close> satisfies \<open>0 \<le> f \<le> l \<le> n - 1\<close>; the request \<open>(0, -1)\<close> on 10 glyphs
  resolves to \<open>(0, 9)\<close> and the inverted request \<open>(5, 2)\<close> to \<open>(5, 5)\<close>.
\<close>

theorem resolve_range_contained:
  "(0 < n \<and> n \<le> 2 ^ 31 \<longrightarrow>
      (case resolve_range requestedFirst requestedLast n of
         (f, l) \<Rightarrow> 0 \<le> f \<and> f \<le> l \<and> l \<le> n - 1))
   \<and> resolve_range 0 (- 1) 10 = (0, 9)
   \<and> resolve_range 5 2 10 = (5, 5)"
proof (intro conjI impI)
  assume n: "0 < n \<and> n \<le> 2 ^ 31"
  then have "signed_take_bit 31 (n - 1) = n - 1"
    by (intro to_int_id) simp_all
  then show "case resolve_range requestedFirst requestedLast n of
         (f, l) \<Rightarrow> 0 \<le> f \<and> f \<le> l \<and> l \<le> n - 1"
    using n by (simp add: resolve_range_def Let_def)
next
  show "resolve_range 0 (- 1) 10 = (0, 9)" by code_simp
next
  show "resolve_range 5 2 10 = (5, 5)" by code_simp
qed

theorem resolve_range_contained_witness:
  "(0::int) < 5 \<and> (5::int) \<le> 2 ^ 31 \<and> resolve_range (- 3) 100 5 = (0, 4)
   \<and> (case resolve_range (- 3) 100 5 of (f, l) \<Rightarrow> 0 \<le> f \<and> f \<le> l \<and> l \<le> 5 - 1)"
proof -
  have r: "resolve_range (- 3) 100 5 = (0, 4)" by code_simp
  show ?thesis using resolve_range_contained [of 5 "- 3" 100] r by simp
qed

text \<open>
  C3 as stated does not hold for every glyph count above 0: the indices are \<open>int\<close>, the
  glyph count is a \<open>long\<close>, and for a count of \<open>2^32\<close> the request \<open>(0, -1)\<close> resolves to
  \<open>(0, -1)\<close>, a range whose first index is above its last.
\<close>

theorem resolve_range_truncates_glyph_count:
  "(0::int) < 4294967296
   \<and> resolve_range 0 (- 1) 4294967296 = (0, - 1)
   \<and> \<not> (case resolve_range 0 (- 1) 4294967296 of
           (f, l) \<Rightarrow> 0 \<le> f \<and> f \<le> l \<and> l \<le> 4294967296 - 1)"
  by code_simp

text \<open>
  C9. For every glyph count \<open>n > 0\<close>, every requested first index and every requested
  last index below \<open>-1\<close> (both of type \<open>int\<close>, the values \<open>sint\<close> of a 32-bit word),
  the resolved range is the single glyph \<open>(f, f)\<close>, where \<open>f\<close> is the requested first
  index clamped into \<open>[0, n - 1]\<close>: the last index is not moved to \<open>n - 1\<close> (it is
  \<open>n - 1\<close> only when \<open>f\<close> is).
\<close>

theorem resolve_range_negative_last:
  fixes requestedFirst requestedLast :: "32 word"
  assumes "0 < n" and "sint requestedLast < - 1"
  shows "resolve_range (sint requestedFirst) (sint requestedLast) n =
           (max 0 (min (sint requestedFirst) (n - 1)),
            max 0 (min (sint requestedFirst) (n - 1)))
         \<and> (max 0 (min (sint requestedFirst) (n - 1)) < n - 1 \<longrightarrow>
              snd (resolve_range (sint requestedFirst) (sint requestedLast) n) \<noteq> n - 1)"
proof (cases "n \<le> sint requestedFirst")
  case True
  then have "n - 1 < 2 ^ 31" using sint_32_range [of requestedFirst] by simp
  then have "signed_take_bit 31 (n - 1) = n - 1"
    using assms(1) by (intro to_int_id) simp_all
  then show ?thesis using assms True by (simp add: resolve_range_def Let_def)
next
  case False
  then show ?thesis using assms by (auto simp add: resolve_range_def Let_def)
qed

theorem resolve_range_negative_last_witness:
  "(0::int) < 10 \<and> sint (- 5 :: 32 word) < - 1
   \<and> sint (3 :: 32 word) = 3 \<and> sint (- 5 :: 32 word) = - 5
   \<and> max 0 (min (sint (3 :: 32 word)) (10 - 1)) < 10 - 1
   \<and> resolve_range (sint (3 :: 32 word)) (sint (- 5 :: 32 word)) 10 = (3, 3)
   \<and> snd (resolve_range (sint (3 :: 32 word)) (sint (- 5 :: 32 word)) 10) \<noteq> 10 - 1"
proof -
  have a: "(0::int) < 10" by simp
  have s3: "sint (3 :: 32 word) = 3" by simp
  have s5: "sint (- 5 :: 32 word) = - 5" by simp
  have b: "sint (- 5 :: 32 word) < - 1" by (simp add: s5)
  show ?thesis
    using resolve_range_negative_last [OF a b, of 3] a b s3 s5 by simp
qed

section \<open>The advance width\<close>

text \<open>
  C4, as the program has it. For every advance \<open>adv\<close> the text written is \<open><whole>,<frac>\<close> when \<open>frac\<close> is not
  0 and \<open><whole>\<close> when it is, where \<open>whole\<close> is \<open>adv\<close> shifted right by 6 bits, that is
  \<open>adv\<close> divided by 64 rounding down, and \<open>frac\<close> is the remainder of \<open>adv\<close> by 63 as C's
  \<open>%\<close> computes it: \<open>adv mod 63\<close> for \<open>adv \<ge> 0\<close>, and \<open>- ((- adv) mod 63)\<close> for a
  negative \<open>adv\<close>. The text is a function of \<open>adv\<close> alone.
\<close>

theorem advance_text_encoding:
  "(let whole = adv div 64; frac = adv smod 63
    in advance_text adv =
         (if frac \<noteq> 0 then fmt_d whole @ '','' @ fmt_d frac else fmt_d whole)
       \<and> drop_bit 6 adv = whole
       \<and> (0 \<le> adv \<longrightarrow> frac = adv mod 63)
       \<and> (adv < 0 \<longrightarrow> frac = - ((- adv) mod 63)))"
  by (auto simp add: advance_text_def Let_def drop_bit_eq_div signed_modulo_int_def sgn_if)

theorem advance_text_encoding_witness:
  "advance_text 100 = ''1,37'' \<and> advance_text 128 = ''2,2'' \<and> advance_text 126 = ''1''
   \<and> advance_text (- 100) = ''-2,-37''
   \<and> (0::int) \<le> 100 \<and> (100::int) smod 63 = 100 mod 63
   \<and> (- 100 :: int) < 0 \<and> (- 100 :: int) smod 63 = - ((- (- 100)) mod 63)"
  using advance_text_encoding [of 100] advance_text_encoding [of 128]
    advance_text_encoding [of 126] advance_text_encoding [of "- 100"]
  by (simp add: Let_def fmt_d_def dec_nat.simps hex_digit_def signed_modulo_int_def)

text \<open>
  C4 as stated does not hold for a negative advance: for \<open>adv = -65\<close> the text is
  \<open>-2,-2\<close>, since \<open>-65 % 63\<close> is \<open>-2\<close> in C, while \<open>-65 mod 63\<close> is 61 and the text
  with \<open>frac = adv mod 63\<close> would be \<open>-2,61\<close>.
\<close>

theorem advance_text_negative_remainder:
  "advance_text (- 65) = ''-2,-2''
   \<and> (- 65 :: int) div 64 = - 2
   \<and> (- 65 :: int) mod 63 = 61
   \<and> (- 65 :: int) smod 63 = - 2
   \<and> advance_text (- 65)
       \<noteq> (if (- 65 :: int) mod 63 \<noteq> 0
            then fmt_d ((- 65) div 64) @ '','' @ fmt_d ((- 65) mod 63)
            else fmt_d ((- 65) div 64))"
  by code_simp

text \<open>
  C10. The advance text is not injective: the advances 0 and 63 are both written as
  \<open>0\<close>, since \<open>63 >> 6 = 0\<close> and \<open>63 % 63 = 0\<close>.
\<close>

theorem advance_text_not_injective:
  "advance_text 0 = ''0'' \<and> advance_text 63 = ''0''
   \<and> drop_bit 6 (63 :: int) = 0 \<and> (63 :: int) smod 0x3f = 0
   \<and> \<not> inj advance_text"
proof -
  have a: "advance_text 0 = ''0''"
    by (simp add: advance_text_def fmt_d_def dec_nat.simps hex_digit_def)
  have b: "advance_text 63 = ''0''"
    by (simp add: advance_text_def fmt_d_def dec_nat.simps hex_digit_def
        signed_modulo_int_def)
  have "\<not> inj advance_text"
  proof
    assume "inj advance_text"
    then have "(0::int) = 63" using a b by (metis injD)
    then show False by simp
  qed
  then show ?thesis using a b by (simp add: signed_modulo_int_def)
qed

section \<open>Coverage rows\<close>

text \<open>
  C1. The rows of a bitmap are written top to bottom, row \<open>rc\<close> read at offset
  \<open>rc * pitch\<close>. For the row at offset \<open>p\<close>, \<open>maxCol\<close> is what the backward scan from
  column \<open>width - 1\<close> returns: the pixel at \<open>maxCol\<close> is not 0 when \<open>maxCol \<ge> 0\<close>, every
  pixel between \<open>maxCol\<close> and \<open>width\<close> is 0, and \<open>maxCol\<close> is \<open>-1\<close> when the row has no
  non-zero pixel. The row's text is a \<open>:\<close>, then one pair of characters for each of the
  columns \<open>0\<close> to \<open>maxCol - 1\<close> (the column \<open>maxCol\<close> itself and the columns after it
  are left out), then the line break. The pair is two spaces for 0 and two hex digits
  otherwise; a row of zeros is written as \<open>:\<close> alone.
\<close>

theorem coverage_rows_encoding:
  "stdout (print_rows bm 0 0 s) =
     stdout s @ concat (map (\<lambda>rc. row_text bm (int rc * pitch bm)) [0..<rows bm])
   \<and> (let maxCol = scan_max (buffer bm) p (int (width bm) - 1)
      in row_text bm p =
           '':'' @ concat (map (\<lambda>cc. print_pixel (buffer bm (p + cc))) [0..maxCol - 1]) @ ''\<newline>''
         \<and> - 1 \<le> maxCol \<and> maxCol < int (width bm)
         \<and> (0 \<le> maxCol \<longrightarrow> buffer bm (p + maxCol) \<noteq> 0)
         \<and> (\<forall>cc. maxCol < cc \<and> cc < int (width bm) \<longrightarrow> buffer bm (p + cc) = 0)
         \<and> ((\<forall>cc. 0 \<le> cc \<and> cc < int (width bm) \<longrightarrow> buffer bm (p + cc) = 0) \<longrightarrow>
              row_text bm p = '':\<newline>''))
   \<and> print_pixel 0 = ''  ''
   \<and> (\<forall>v. v \<noteq> 0 \<longrightarrow> print_pixel v = [hex_digit (unat v div 16), hex_digit (unat v mod 16)])"
proof -
  define maxCol where "maxCol = scan_max (buffer bm) p (int (width bm) - 1)"
  have rows_ok: "stdout (print_rows bm 0 0 s) =
     stdout s @ concat (map (\<lambda>rc. row_text bm (int rc * pitch bm)) [0..<rows bm])"
    by (simp add: stdout_print_rows)
  have rt: "row_text bm p =
      '':'' @ concat (map (\<lambda>cc. print_pixel (buffer bm (p + cc))) [0..maxCol - 1]) @ ''\<newline>''"
    by (simp add: row_text_def stdout_print_row maxCol_def)
  have bounds: "- 1 \<le> maxCol \<and> maxCol < int (width bm)"
    using scan_max_bounds [of "int (width bm) - 1" "buffer bm" p] by (simp add: maxCol_def)
  have nz: "0 \<le> maxCol \<longrightarrow> buffer bm (p + maxCol) \<noteq> 0"
    using scan_max_nonzero [of "buffer bm" p "int (width bm) - 1"] by (simp add: maxCol_def)
  have zs: "\<forall>cc. maxCol < cc \<and> cc < int (width bm) \<longrightarrow> buffer bm (p + cc) = 0"
    using scan_max_zeros [of "buffer bm" p "int (width bm) - 1"] by (simp add: maxCol_def)
  have allz: "(\<forall>cc. 0 \<le> cc \<and> cc < int (width bm) \<longrightarrow> buffer bm (p + cc) = 0) \<longrightarrow>
              row_text bm p = '':\<newline>''"
  proof
    assume z: "\<forall>cc. 0 \<le> cc \<and> cc < int (width bm) \<longrightarrow> buffer bm (p + cc) = 0"
    have "maxCol = - 1"
      unfolding maxCol_def by (rule scan_max_all_zero) (use z in auto)
    then show "row_text bm p = '':\<newline>''" using rt by simp
  qed
  have px: "print_pixel 0 = ''  '' \<and>
     (\<forall>v. v \<noteq> 0 \<longrightarrow> print_pixel v = [hex_digit (unat v div 16), hex_digit (unat v mod 16)])"
    by (simp add: print_pixel_def fmt_02x_def)
  show ?thesis
    using rows_ok rt bounds nz zs allz px unfolding Let_def maxCol_def by blast
qed

theorem coverage_rows_encoding_witness:
  "stdout (print_rows example_bitmap 0 0 empty_io) = '':  1f\<newline>:\<newline>''
   \<and> scan_max (buffer example_bitmap) 0 (int (width example_bitmap) - 1) = 2
   \<and> buffer example_bitmap (0 + 2) \<noteq> 0
   \<and> (2::int) < 3 \<and> (3::int) < int (width example_bitmap) \<and> buffer example_bitmap (0 + 3) = 0
   \<and> row_text example_bitmap 0 = '':  1f\<newline>''
   \<and> buffer example_bitmap (4 + 0) = 0 \<and> buffer example_bitmap (4 + 1) = 0
   \<and> buffer example_bitmap (4 + 2) = 0 \<and> buffer example_bitmap (4 + 3) = 0
   \<and> row_text example_bitmap 4 = '':\<newline>''"
proof -
  have scan: "scan_max (buffer example_bitmap) 0 (int (width example_bitmap) - 1) = 2"
    by code_simp
  have z: "\<forall>cc. 0 \<le> cc \<and> cc < int (width example_bitmap) \<longrightarrow> buffer example_bitmap (4 + cc) = 0"
    by (simp add: example_bitmap_def)
  have px: "print_pixel 0x1f = ''1f''" by code_simp
  have r0: "[0..(1::int)] = [0, 1]" by (simp add: upto_rec1)
  have b: "buffer example_bitmap 0 = 0" "buffer example_bitmap 1 = 0x1f" "buffer example_bitmap 2 = 0xa0" "buffer example_bitmap 3 = 0"
    by (simp_all add: example_bitmap_def)
  have w: "width example_bitmap = 4" "rows example_bitmap = 2" "pitch example_bitmap = 4" by (simp_all add: example_bitmap_def)
  have u: "[0..<2::nat] = [0, 1]" by (simp add: upt_conv_Cons)
  note t0 = coverage_rows_encoding [of example_bitmap empty_io 0]
  note t4 = coverage_rows_encoding [of example_bitmap empty_io 4]
  have row0: "row_text example_bitmap 0 = '':  1f\<newline>''"
    using t0 by (simp add: Let_def scan r0 b px)
  have row4: "row_text example_bitmap 4 = '':\<newline>''"
    using t4 z unfolding Let_def by blast
  have all: "stdout (print_rows example_bitmap 0 0 empty_io) = '':  1f\<newline>:\<newline>''"
    using t0 row0 row4 by (simp add: w u empty_io_def)
  have b4: "buffer example_bitmap 4 = 0" "buffer example_bitmap 5 = 0"
    "buffer example_bitmap 6 = 0" "buffer example_bitmap 7 = 0"
    by (simp_all add: example_bitmap_def)
  show ?thesis using all scan row0 row4 b b4 w by simp
qed

text \<open>
  C2. Reading a written row back does not give the row's non-zero prefix: the last
  non-zero pixel is not written. The first row of the example bitmap, \<open>00 1f a0 00\<close>,
  is written as \<open>:  1f\<close>, which reads back as \<open>00 1f 00 00\<close>; the non-zero prefix
  \<open>00 1f a0\<close> has become \<open>00 1f\<close>.
\<close>

theorem row_round_trip_loses_last_pixel:
  "row_pixels example_bitmap 0 = [0, 0x1f, 0xa0, 0]
   \<and> row_text example_bitmap 0 = '':  1f\<newline>''
   \<and> decode_row_spec (width example_bitmap) (row_text example_bitmap 0) = [0, 0x1f, 0, 0]
   \<and> nonzero_prefix (row_pixels example_bitmap 0) = [0, 0x1f, 0xa0]
   \<and> nonzero_prefix (decode_row_spec (width example_bitmap) (row_text example_bitmap 0)) = [0, 0x1f]
   \<and> nonzero_prefix (decode_row_spec (width example_bitmap) (row_text example_bitmap 0))
       \<noteq> nonzero_prefix (row_pixels example_bitmap 0)"
  by code_simp

section \<open>The document\<close>



text \<open>
  C6. For a run that starts with an empty standard output: \<open>render\<close> returns 0 exactly
  when the output ends with \<open># EOF\<close> and a line break, and then \<open># EOF\<close> is a whole
  line, the last one; it returns 0 exactly when no step fails (library, face, size
  check, size setting, and the load and render of every glyph of the resolved range);
  and whatever it returns, its output is a prefix of the output of the same run in the
  world where nothing fails.
\<close>

theorem eof_marker_iff_success:
  assumes empty: "stdout s = []"
  shows "(fst (render w face_name pixel_size first_glyph_index last_glyph_index s) = 0 \<longleftrightarrow>
            suffix ''# EOF\<newline>''
              (stdout (snd (render w face_name pixel_size first_glyph_index last_glyph_index s))))
       \<and> (fst (render w face_name pixel_size first_glyph_index last_glyph_index s) = 0 \<longrightarrow>
            suffix ''\<newline># EOF\<newline>''
              (stdout (snd (render w face_name pixel_size first_glyph_index last_glyph_index s))))
       \<and> (fst (render w face_name pixel_size first_glyph_index last_glyph_index s) = 0 \<longleftrightarrow>
            init_error w = 0 \<and> new_face_error w = 0 \<and> 4 \<le> pixel_size
            \<and> set_pixel_sizes_error w pixel_size = 0
            \<and> (\<forall>g. fst (resolve_range first_glyph_index last_glyph_index (num_glyphs (face w))) \<le> g
                   \<and> g \<le> snd (resolve_range first_glyph_index last_glyph_index (num_glyphs (face w)))
                   \<longrightarrow> load_glyph_error w g = 0 \<and> render_glyph_error w g = 0))
       \<and> prefix
            (stdout (snd (render w face_name pixel_size first_glyph_index last_glyph_index s)))
            (stdout (snd (render (no_failures w) face_name pixel_size
                            first_glyph_index last_glyph_index s)))"
proof (cases "init_error w \<noteq> 0 \<or> new_face_error w \<noteq> 0 \<or> pixel_size < 4
               \<or> set_pixel_sizes_error w pixel_size \<noteq> 0")
  case True
  then have "fst (render w face_name pixel_size first_glyph_index last_glyph_index s) \<noteq> 0"
    and "stdout (snd (render w face_name pixel_size first_glyph_index last_glyph_index s)) = []"
    using render_early [of w pixel_size face_name first_glyph_index last_glyph_index s] empty
    by simp_all
  then show ?thesis using True by auto
next
  case False
  then have c: "init_error w = 0" "new_face_error w = 0" "4 \<le> pixel_size"
    "set_pixel_sizes_error w pixel_size = 0" by simp_all
  obtain f l where rr: "resolve_range first_glyph_index last_glyph_index (num_glyphs (face w)) = (f, l)"
    by (cases "resolve_range first_glyph_index last_glyph_index (num_glyphs (face w))")
  let ?s4 = "print_header w face_name pixel_size f l
                (ft (Set_Pixel_Sizes pixel_size) (ft (New_Face face_name) (ft Init_FreeType s)))"
  let ?r = "glyph_loop w f l ?s4"
  let ?r' = "glyph_loop (no_failures w) f l ?s4"
  let ?R = "render w face_name pixel_size first_glyph_index last_glyph_index s"
  let ?R' = "render (no_failures w) face_name pixel_size first_glyph_index last_glyph_index s"
  note late = render_late_stdout [OF c rr, where fn = face_name and s = s]
  note late' = render_late_stdout [where w = "no_failures w" and ps = pixel_size
      and rf = first_glyph_index and rl = last_glyph_index and f = f and l = l
      and fn = face_name and s = s, simplified, OF c(3) rr]
  obtain post where p: "stdout (snd ?r) = header_text w face_name pixel_size f l @ post"
    and ok: "line_end_ok (header_text w face_name pixel_size f l @ post)"
    using late(3) empty by auto
  have none': "fst ?r' = None"
    by (simp add: glyph_loop_None_iff)
  have R': "stdout (snd ?R') = stdout (snd ?r') @ ''# EOF\<newline>''"
    using late'(2) none' by simp
  have all_iff: "fst ?r = None \<longleftrightarrow>
      (\<forall>g. f \<le> g \<and> g \<le> l \<longrightarrow> load_glyph_error w g = 0 \<and> render_glyph_error w g = 0)"
    by (rule glyph_loop_None_iff)
  show ?thesis
  proof (cases "fst ?r")
    case None
    have R0: "fst ?R = 0" using late(1) None by simp
    have out: "stdout (snd ?R) = (header_text w face_name pixel_size f l @ post) @ ''# EOF\<newline>''"
      using late(2) None p by simp
    have s1: "suffix ''\<newline># EOF\<newline>'' (stdout (snd ?R))"
      unfolding out using ok by (rule line_end_ok_eof)
    then have s2: "suffix ''# EOF\<newline>'' (stdout (snd ?R))"
      by (auto simp add: suffix_def)
    have "stdout (snd ?r) = stdout (snd ?r')"
      using glyph_loop_intended [of w f l ?s4] None by simp
    then have pre: "prefix (stdout (snd ?R)) (stdout (snd ?R'))"
      using late(2) None R' by simp
    show ?thesis using R0 s1 s2 pre all_iff None c rr by simp
  next
    case (Some e)
    have e: "e \<noteq> 0" using glyph_loop_Some [OF Some] by simp
    have R0: "fst ?R \<noteq> 0" using late(1) Some e by simp
    have out: "stdout (snd ?R) = header_text w face_name pixel_size f l @ post"
      using late(2) Some p by simp
    have s2: "\<not> suffix ''# EOF\<newline>'' (stdout (snd ?R))"
      unfolding out using ok by (rule line_end_ok_not_eof)
    have "prefix (stdout (snd ?r)) (stdout (snd ?r'))"
      using glyph_loop_intended [of w f l ?s4] by simp
    then have pre: "prefix (stdout (snd ?R)) (stdout (snd ?R'))"
      using late(2) Some R' by (simp add: prefix_def) (metis append_assoc)
    have "\<not> (\<forall>g. f \<le> g \<and> g \<le> l \<longrightarrow> load_glyph_error w g = 0 \<and> render_glyph_error w g = 0)"
      using all_iff Some by simp
    then show ?thesis using R0 s2 pre rr by simp
  qed
qed

theorem eof_marker_iff_success_witness:
  "stdout empty_io = []
   \<and> fst (render example_world ''f.ttf'' 48 0 (- 1) empty_io) = 0
   \<and> suffix ''\<newline># EOF\<newline>'' (stdout (snd (render example_world ''f.ttf'' 48 0 (- 1) empty_io)))
   \<and> fst (render failing_world ''f.ttf'' 48 0 (- 1) empty_io) = 19
   \<and> \<not> suffix ''# EOF\<newline>'' (stdout (snd (render failing_world ''f.ttf'' 48 0 (- 1) empty_io)))
   \<and> prefix (stdout (snd (render failing_world ''f.ttf'' 48 0 (- 1) empty_io)))
        (stdout (snd (render (no_failures failing_world) ''f.ttf'' 48 0 (- 1) empty_io)))"
proof -
  have e: "stdout empty_io = []" by (simp add: empty_io_def)
  have r0: "fst (render example_world ''f.ttf'' 48 0 (- 1) empty_io) = 0" by code_simp
  have r1: "fst (render failing_world ''f.ttf'' 48 0 (- 1) empty_io) = 19" by code_simp
  then have r1': "fst (render failing_world ''f.ttf'' 48 0 (- 1) empty_io) \<noteq> 0" by simp
  note t0 = eof_marker_iff_success [OF e, of example_world "''f.ttf''" 48 0 "- 1"]
  note t1 = eof_marker_iff_success [OF e, of failing_world "''f.ttf''" 48 0 "- 1"]
  show ?thesis using e r0 r1 r1' t0 t1 by blast
qed

text \<open>
  C5, as the program has it. The glyph range is resolved without any check of the
  glyph count: once the pixel size is set, for every glyph count (also 0 or less) the
  header with the resolved range is written, and if the run fails after that, it fails
  with the error of the load or the render of a glyph of the resolved range.
\<close>

theorem resolver_never_fails:
  assumes "init_error w = 0" and "new_face_error w = 0" and "4 \<le> pixel_size"
    and "set_pixel_sizes_error w pixel_size = 0"
    and "resolve_range first_glyph_index last_glyph_index (num_glyphs (face w)) = (f, l)"
  shows "(\<exists>post.
            stdout (snd (render w face_name pixel_size first_glyph_index last_glyph_index s)) =
              stdout s @ header_text w face_name pixel_size f l @ post)
         \<and> (fst (render w face_name pixel_size first_glyph_index last_glyph_index s) \<noteq> 0 \<longrightarrow>
              (\<exists>g. f \<le> g \<and> g \<le> l
                 \<and> (fst (render w face_name pixel_size first_glyph_index last_glyph_index s)
                       = load_glyph_error w g
                    \<or> fst (render w face_name pixel_size first_glyph_index last_glyph_index s)
                       = render_glyph_error w g)))"
proof -
  let ?r = "glyph_loop w f l
             (print_header w face_name pixel_size f l
                (ft (Set_Pixel_Sizes pixel_size) (ft (New_Face face_name) (ft Init_FreeType s))))"
  let ?R = "render w face_name pixel_size first_glyph_index last_glyph_index s"
  note late = render_late_stdout [OF assms, where fn = face_name and s = s]
  obtain post where p: "stdout (snd ?r) = stdout s @ header_text w face_name pixel_size f l @ post"
    using late(3) by blast
  show ?thesis
  proof (cases "fst ?r")
    case None
    have "stdout (snd ?R) = stdout s @ header_text w face_name pixel_size f l @ (post @ ''# EOF\<newline>'')"
      using late(2) None p by simp
    moreover have "fst ?R = 0" using late(1) None by simp
    ultimately show ?thesis by blast
  next
    case (Some e)
    have "stdout (snd ?R) = stdout s @ header_text w face_name pixel_size f l @ post"
      using late(2) Some p by simp
    moreover have "fst ?R = e" using late(1) Some by simp
    moreover have "\<exists>g. f \<le> g \<and> g \<le> l \<and> (e = load_glyph_error w g \<or> e = render_glyph_error w g)"
      using glyph_loop_Some [OF Some] by blast
    ultimately show ?thesis by blast
  qed
qed

theorem resolver_never_fails_witness:
  "init_error empty_font_world = 0 \<and> new_face_error empty_font_world = 0 \<and> (4::int) \<le> 48
   \<and> set_pixel_sizes_error empty_font_world 48 = 0
   \<and> num_glyphs (face empty_font_world) = 0
   \<and> resolve_range 0 (- 1) (num_glyphs (face empty_font_world)) = (- 1, - 1)
   \<and> fst (render empty_font_world ''f.ttf'' 48 0 (- 1) empty_io) = 16
   \<and> (\<exists>post. stdout (snd (render empty_font_world ''f.ttf'' 48 0 (- 1) empty_io)) =
          stdout empty_io @ header_text empty_font_world ''f.ttf'' 48 (- 1) (- 1) @ post)
   \<and> (\<exists>g. - 1 \<le> g \<and> g \<le> - 1
         \<and> (fst (render empty_font_world ''f.ttf'' 48 0 (- 1) empty_io)
               = load_glyph_error empty_font_world g
            \<or> fst (render empty_font_world ''f.ttf'' 48 0 (- 1) empty_io)
               = render_glyph_error empty_font_world g))"
proof -
  have h1: "init_error empty_font_world = 0" by (simp add: empty_font_world_def example_world_def)
  have h2: "new_face_error empty_font_world = 0" by (simp add: empty_font_world_def example_world_def)
  have h3: "(4::int) \<le> 48" by simp
  have h4: "set_pixel_sizes_error empty_font_world 48 = 0"
    by (simp add: empty_font_world_def example_world_def)
  have n: "num_glyphs (face empty_font_world) = 0"
    by (simp add: empty_font_world_def example_world_def)
  have h5: "resolve_range 0 (- 1) (num_glyphs (face empty_font_world)) = (- 1, - 1)"
    by (simp add: n resolve_range_def)
  have r: "fst (render empty_font_world ''f.ttf'' 48 0 (- 1) empty_io) = 16" by code_simp
  then have r': "fst (render empty_font_world ''f.ttf'' 48 0 (- 1) empty_io) \<noteq> 0" by simp
  note t = resolver_never_fails [OF h1 h2 h3 h4 h5, of "''f.ttf''" empty_io]
  show ?thesis using h1 h2 h3 h4 n h5 r r' t by blast
qed

text \<open>
  C5 as stated does not hold: for a font with no glyphs and the request \<open>(-3, -1)\<close> the
  range is resolved to \<open>(0, -1)\<close> and the run is a success, with a complete dump.
\<close>

theorem resolver_accepts_empty_font:
  "num_glyphs (face empty_font_world) \<le> 0
   \<and> resolve_range (- 3) (- 1) (num_glyphs (face empty_font_world)) = (0, - 1)
   \<and> render empty_font_world ''f.ttf'' 48 (- 3) (- 1) empty_io =
       (0, \<lparr>stdout = ''# generated on 2020-01-01 00:00:00\<newline>> file: f.ttf\<newline>> name: Noto Sans-Regular\<newline>> upem: 1000\<newline>> ascent: 1069\<newline>> descent: 293\<newline>> size: 48\<newline>> font_glyphs: 0\<newline># first: 0\<newline># last: -1\<newline>> num_glyphs: 0\<newline># EOF\<newline>'',
            stderr = [],
            ft_calls = [Init_FreeType, New_Face ''f.ttf'', Set_Pixel_Sizes 48]\<rparr>)"
  by code_simp

text \<open>
  C7, as the program has it. A pixel size outside \<open>[1, 1000]\<close> is rejected by \<open>main\<close>
  with \<open>-1\<close>, before any FreeType call and with no output; every other pixel size is
  passed to \<open>render\<close>. A pixel size of 1, 2 or 3 is rejected by \<open>render\<close> with 100 after
  \<open>FT_Init_FreeType\<close> and \<open>FT_New_Face\<close> have been called and have succeeded; if one of
  the two fails, its error is returned instead, and the size is not looked at. For
  every pixel size below 4 \<open>render\<close> fails, writes nothing to the standard output and
  does not call \<open>FT_Set_Pixel_Sizes\<close>.
\<close>

theorem invalid_pixel_size:
  "(2 < length argv \<and> (atoi (argv ! 2) < 1 \<or> 1000 < atoi (argv ! 2)) \<longrightarrow>
      main w argv =
        (- 1, \<lparr>stdout = [],
               stderr = ''bad pixel height '' @ [CHR 0x27] @ argv ! 2 @ [CHR 0x27] @ ''\<newline>'',
               ft_calls = []\<rparr>))
   \<and> (2 < length argv \<and> 1 \<le> atoi (argv ! 2) \<and> atoi (argv ! 2) \<le> 1000 \<longrightarrow>
      main w argv =
        render w (argv ! 1) (atoi (argv ! 2))
          (if 3 < length argv then atoi (argv ! 3) else 0)
          (if 4 < length argv then atoi (argv ! 4) else - 1)
          \<lparr>stdout = [], stderr = [], ft_calls = []\<rparr>)
   \<and> (2 < length argv \<and> 1 \<le> atoi (argv ! 2) \<and> atoi (argv ! 2) < 4
        \<and> init_error w = 0 \<and> new_face_error w = 0 \<longrightarrow>
      main w argv =
        (100, \<lparr>stdout = [],
                stderr = ''size '' @ fmt_d (atoi (argv ! 2)) @ '' too small'',
                ft_calls = [Init_FreeType, New_Face (argv ! 1)]\<rparr>))
   \<and> (pixel_size < 4 \<longrightarrow>
        fst (render w face_name pixel_size first_glyph_index last_glyph_index s) \<noteq> 0
        \<and> stdout (snd (render w face_name pixel_size first_glyph_index last_glyph_index s))
            = stdout s
        \<and> Set_Pixel_Sizes pixel_size
            \<notin> set (ft_calls (snd (render w face_name pixel_size first_glyph_index
                                     last_glyph_index (s\<lparr>ft_calls := []\<rparr>)))))
   \<and> (pixel_size < 4 \<longrightarrow>
        render w face_name pixel_size first_glyph_index last_glyph_index s =
          (if init_error w \<noteq> 0 then
             (init_error w,
              s\<lparr>stderr := stderr s @ ''failed to init freetype\<newline>'',
                ft_calls := ft_calls s @ [Init_FreeType]\<rparr>)
           else if new_face_error w \<noteq> 0 then
             (new_face_error w,
              s\<lparr>stderr := stderr s @ ''failed to create face for '' @ [CHR 0x27] @ face_name
                            @ [CHR 0x27] @ ''\<newline>'',
                ft_calls := ft_calls s @ [Init_FreeType, New_Face face_name]\<rparr>)
           else
             (100,
              s\<lparr>stderr := stderr s @ ''size '' @ fmt_d pixel_size @ '' too small'',
                ft_calls := ft_calls s @ [Init_FreeType, New_Face face_name]\<rparr>)))"
proof (intro conjI impI)
  assume "2 < length argv \<and> (atoi (argv ! 2) < 1 \<or> 1000 < atoi (argv ! 2))"
  then show "main w argv =
        (- 1, \<lparr>stdout = [],
               stderr = ''bad pixel height '' @ [CHR 0x27] @ argv ! 2 @ [CHR 0x27] @ ''\<newline>'',
               ft_calls = []\<rparr>)"
    by (auto simp add: main_def Let_def eprintf_def)
next
  assume "2 < length argv \<and> 1 \<le> atoi (argv ! 2) \<and> atoi (argv ! 2) \<le> 1000"
  then show "main w argv =
        render w (argv ! 1) (atoi (argv ! 2))
          (if 3 < length argv then atoi (argv ! 3) else 0)
          (if 4 < length argv then atoi (argv ! 4) else - 1)
          \<lparr>stdout = [], stderr = [], ft_calls = []\<rparr>"
    by (simp add: main_def Let_def)
next
  assume "2 < length argv \<and> 1 \<le> atoi (argv ! 2) \<and> atoi (argv ! 2) < 4
        \<and> init_error w = 0 \<and> new_face_error w = 0"
  then show "main w argv =
        (100, \<lparr>stdout = [],
                stderr = ''size '' @ fmt_d (atoi (argv ! 2)) @ '' too small'',
                ft_calls = [Init_FreeType, New_Face (argv ! 1)]\<rparr>)"
    by (simp add: main_def Let_def render_def eprintf_def ft_def)
next
  assume "pixel_size < 4"
  then show "fst (render w face_name pixel_size first_glyph_index last_glyph_index s) \<noteq> 0"
    using render_early [of w pixel_size] by simp
next
  assume "pixel_size < 4"
  then show "stdout (snd (render w face_name pixel_size first_glyph_index last_glyph_index s))
            = stdout s"
    using render_early [of w pixel_size] by simp
next
  assume "pixel_size < 4"
  then show "Set_Pixel_Sizes pixel_size
            \<notin> set (ft_calls (snd (render w face_name pixel_size first_glyph_index
                                     last_glyph_index (s\<lparr>ft_calls := []\<rparr>))))"
    by (simp add: render_def eprintf_def ft_def)
next
  assume "pixel_size < 4"
  then show "render w face_name pixel_size first_glyph_index last_glyph_index s =
          (if init_error w \<noteq> 0 then
             (init_error w,
              s\<lparr>stderr := stderr s @ ''failed to init freetype\<newline>'',
                ft_calls := ft_calls s @ [Init_FreeType]\<rparr>)
           else if new_face_error w \<noteq> 0 then
             (new_face_error w,
              s\<lparr>stderr := stderr s @ ''failed to create face for '' @ [CHR 0x27] @ face_name
                            @ [CHR 0x27] @ ''\<newline>'',
                ft_calls := ft_calls s @ [Init_FreeType, New_Face face_name]\<rparr>)
           else
             (100,
              s\<lparr>stderr := stderr s @ ''size '' @ fmt_d pixel_size @ '' too small'',
                ft_calls := ft_calls s @ [Init_FreeType, New_Face face_name]\<rparr>))"
    by (simp add: render_def eprintf_def ft_def)
qed

theorem invalid_pixel_size_witness:
  "atoi ''1001'' = 1001 \<and> atoi ''3'' = 3 \<and> fmt_d 3 = ''3''
   \<and> init_error example_world = 0 \<and> new_face_error example_world = 0
   \<and> main example_world [''glyph_image'', ''f.ttf'', ''1001''] =
        (- 1, \<lparr>stdout = [],
               stderr = ''bad pixel height '' @ [CHR 0x27] @ ''1001'' @ [CHR 0x27] @ ''\<newline>'',
               ft_calls = []\<rparr>)
   \<and> main example_world [''glyph_image'', ''f.ttf'', ''3''] =
        render example_world ''f.ttf'' 3 0 (- 1) \<lparr>stdout = [], stderr = [], ft_calls = []\<rparr>
   \<and> main example_world [''glyph_image'', ''f.ttf'', ''3''] =
        (100, \<lparr>stdout = [], stderr = ''size '' @ ''3'' @ '' too small'',
                ft_calls = [Init_FreeType, New_Face ''f.ttf'']\<rparr>)
   \<and> fst (render example_world ''f.ttf'' 3 0 (- 1) empty_io) \<noteq> 0
   \<and> stdout (snd (render example_world ''f.ttf'' 3 0 (- 1) empty_io)) = stdout empty_io
   \<and> Set_Pixel_Sizes 3
        \<notin> set (ft_calls (snd (render example_world ''f.ttf'' 3 0 (- 1)
                                 (empty_io\<lparr>ft_calls := []\<rparr>))))
   \<and> init_error broken_library_world = 5
   \<and> render broken_library_world ''f.ttf'' 3 0 (- 1) empty_io =
        (5, \<lparr>stdout = [], stderr = ''failed to init freetype\<newline>'',
              ft_calls = [Init_FreeType]\<rparr>)
   \<and> init_error unreadable_font_world = 0 \<and> new_face_error unreadable_font_world = 1
   \<and> render unreadable_font_world ''f.ttf'' 3 0 (- 1) empty_io =
        (1, \<lparr>stdout = [],
              stderr = ''failed to create face for '' @ [CHR 0x27] @ ''f.ttf'' @ [CHR 0x27]
                       @ ''\<newline>'',
              ft_calls = [Init_FreeType, New_Face ''f.ttf'']\<rparr>)"
proof -
  have a1: "atoi ''1001'' = 1001" by code_simp
  have a3: "atoi ''3'' = 3" by code_simp
  have f3: "fmt_d 3 = ''3''" by code_simp
  have h1: "init_error example_world = 0" by (simp add: example_world_def)
  have h2: "new_face_error example_world = 0" by (simp add: example_world_def)
  have b1: "init_error broken_library_world = 5"
    by (simp add: broken_library_world_def)
  have u1: "init_error unreadable_font_world = 0"
    by (simp add: unreadable_font_world_def example_world_def)
  have u2: "new_face_error unreadable_font_world = 1"
    by (simp add: unreadable_font_world_def)
  note big = invalid_pixel_size [of "[''glyph_image'', ''f.ttf'', ''1001'']" example_world]
  note small = invalid_pixel_size [of "[''glyph_image'', ''f.ttf'', ''3'']" example_world 3
      "''f.ttf''" 0 "- 1" empty_io]
  note broken = invalid_pixel_size [of "[]" broken_library_world 3 "''f.ttf''" 0 "- 1" empty_io]
  note unreadable = invalid_pixel_size [of "[]" unreadable_font_world 3 "''f.ttf''" 0 "- 1"
      empty_io]
  have m1: "main example_world [''glyph_image'', ''f.ttf'', ''1001''] =
        (- 1, \<lparr>stdout = [],
               stderr = ''bad pixel height '' @ [CHR 0x27] @ ''1001'' @ [CHR 0x27] @ ''\<newline>'',
               ft_calls = []\<rparr>)"
    using big a1 by simp
  have m2: "main example_world [''glyph_image'', ''f.ttf'', ''3''] =
        render example_world ''f.ttf'' 3 0 (- 1) \<lparr>stdout = [], stderr = [], ft_calls = []\<rparr>"
    using small a3 by simp
  have m3: "main example_world [''glyph_image'', ''f.ttf'', ''3''] =
        (100, \<lparr>stdout = [], stderr = ''size '' @ ''3'' @ '' too small'',
                ft_calls = [Init_FreeType, New_Face ''f.ttf'']\<rparr>)"
    using small a3 f3 h1 h2 by (simp add: empty_io_def)
  have r: "fst (render example_world ''f.ttf'' 3 0 (- 1) empty_io) \<noteq> 0
   \<and> stdout (snd (render example_world ''f.ttf'' 3 0 (- 1) empty_io)) = stdout empty_io
   \<and> Set_Pixel_Sizes 3
        \<notin> set (ft_calls (snd (render example_world ''f.ttf'' 3 0 (- 1)
                                 (empty_io\<lparr>ft_calls := []\<rparr>))))"
    using small by simp
  have rb: "render broken_library_world ''f.ttf'' 3 0 (- 1) empty_io =
        (5, \<lparr>stdout = [], stderr = ''failed to init freetype\<newline>'',
              ft_calls = [Init_FreeType]\<rparr>)"
    using broken b1 by (simp add: empty_io_def)
  have ru: "render unreadable_font_world ''f.ttf'' 3 0 (- 1) empty_io =
        (1, \<lparr>stdout = [],
              stderr = ''failed to create face for '' @ [CHR 0x27] @ ''f.ttf'' @ [CHR 0x27]
                       @ ''\<newline>'',
              ft_calls = [Init_FreeType, New_Face ''f.ttf'']\<rparr>)"
    using unreadable u1 u2 by (simp add: empty_io_def)
  show ?thesis using a1 a3 f3 h1 h2 m1 m2 m3 r b1 rb u1 u2 ru by blast
qed

text \<open>
  C7 as stated does not hold: with the pixel size 2 the size error is returned after the
  library handle and the face have been acquired.
\<close>

theorem size_rejected_after_face_is_open:
  "atoi ''2'' = 2
   \<and> main example_world [''glyph_image'', ''f.ttf'', ''2''] =
        (100, \<lparr>stdout = [], stderr = ''size 2 too small'',
                ft_calls = [Init_FreeType, New_Face ''f.ttf'']\<rparr>)"
  by code_simp

end
